theory Spec2Isabelle
  imports Complex_Main
begin

section \<open>OrbitChain: the ledger engine of \<open>Orbitchain.py\<close>\<close>

text \<open>
  The engine classes \<open>Transaction\<close>, \<open>Validator\<close>, \<open>Orbit\<close> and \<open>OrbitChainNetwork\<close> are
  embedded as records with explicit state passing. Every method that mutates \<open>self\<close>
  returns the updated record; a method that can raise returns the exception next to the
  state the object is left in, because a Python caller that catches the exception keeps
  using the partly updated object.

  What the source takes from its environment is a parameter of the model:
  \<^item> \<open>hashlib.sha256(s.encode()).hexdigest()\<close>, \<open>json.dumps(content, sort_keys=True)\<close> and
    \<open>str\<close> of a \<open>datetime\<close> are the three fields of a \<open>host\<close> record;
  \<^item> every \<open>datetime.now()\<close> and the nonce \<open>f"{time.time()}{random.randint(0,9999)}"\<close> are
    arguments of the function that reads them.
  The \<open>print\<close> calls have no effect on the state and are left out.
\<close>

subsection \<open>Environment\<close>

type_synonym datetime = nat

record seal_content =
  c_orbit_number :: int
  c_transactions :: nat
  c_merkle_root :: string
  c_previous_hash :: string
  c_timestamp :: datetime

record host =
  sha256_hex :: "string \<Rightarrow> string"
  json_dumps :: "seal_content \<Rightarrow> string"
  str_datetime :: "datetime \<Rightarrow> string"

datatype exn = ZeroDivisionError | IndexError | ValueError

text \<open>
  The subscript \<open>xs[i]\<close> of a Python list: an index from \<open>-len(xs)\<close> up to \<open>-1\<close> reads
  from the end, anything else outside \<open>0 .. len(xs) - 1\<close> raises.
\<close>

definition py_index :: "'a list \<Rightarrow> int \<Rightarrow> exn + 'a" where
  "py_index xs i =
     (if 0 \<le> i \<and> i < int (length xs) then Inr (xs ! nat i)
      else if - int (length xs) \<le> i \<and> i < 0 then Inr (xs ! nat (int (length xs) + i))
      else Inl IndexError)"

subsection \<open>Transaction\<close>

record transaction =
  tx_id :: string
  sender :: string
  receiver :: string
  data :: string
  tx_type :: string
  tx_timestamp :: datetime
  signature :: string

definition generate_id :: "host \<Rightarrow> string \<Rightarrow> string" where
  "generate_id h nonce = take 12 (sha256_hex h nonce)"

definition sign :: "host \<Rightarrow> string \<Rightarrow> string \<Rightarrow> string \<Rightarrow> datetime \<Rightarrow> string" where
  "sign h sndr rcv dat ts = take 16 (sha256_hex h (sndr @ rcv @ dat @ str_datetime h ts))"

definition Transaction_init ::
  "host \<Rightarrow> string \<Rightarrow> datetime \<Rightarrow> string \<Rightarrow> string \<Rightarrow> string \<Rightarrow> string \<Rightarrow> transaction" where
  "Transaction_init h nonce now sndr rcv dat ty =
     \<lparr>tx_id = generate_id h nonce, sender = sndr, receiver = rcv, data = dat,
      tx_type = ty, tx_timestamp = now, signature = sign h sndr rcv dat now\<rparr>"

subsection \<open>Validator\<close>

record validator =
  name :: string
  stake :: rat
  reputation :: int
  is_active :: bool
  sector_position :: int
  validated_count :: int

definition Validator_init :: "string \<Rightarrow> rat \<Rightarrow> validator" where
  "Validator_init nm st =
     \<lparr>name = nm, stake = st, reputation = 100, is_active = True,
      sector_position = 0, validated_count = 0\<rparr>"

text \<open>\<open>Validator.validate_transaction\<close>: the verdict and the validator with its counter.\<close>

definition validate_transaction :: "transaction \<Rightarrow> validator \<Rightarrow> bool \<times> validator" where
  "validate_transaction tx v =
     (if signature tx = [] \<or> length (signature tx) < 10 then (False, v)
      else if sender tx = [] \<or> receiver tx = [] then (False, v)
      else (True, v\<lparr>validated_count := validated_count v + 1\<rparr>))"

subsection \<open>Orbit\<close>

record orbit =
  orbit_number :: int
  transactions :: "transaction list"
  max_transactions :: int
  timestamp :: datetime
  is_sealed :: bool
  validators_confirmed :: "string list"
  orbital_hash :: string
  previous_hash :: string
  merkle_root :: string

definition Orbit_init :: "int \<Rightarrow> int \<Rightarrow> datetime \<Rightarrow> orbit" where
  "Orbit_init n cap now =
     \<lparr>orbit_number = n, transactions = [], max_transactions = cap, timestamp = now,
      is_sealed = False, validators_confirmed = [], orbital_hash = [],
      previous_hash = [], merkle_root = []\<rparr>"

text \<open>
  One pass of the inner \<open>for i in range(0, len(hashes), 2)\<close> loop of
  \<open>update_merkle_root\<close>: adjacent pairs are concatenated and hashed, an odd last element
  is paired with itself.
\<close>

fun merkle_level :: "host \<Rightarrow> string list \<Rightarrow> string list" where
  "merkle_level h [] = []"
| "merkle_level h [a] = [take 16 (sha256_hex h (a @ a))]"
| "merkle_level h (a # b # rest) = take 16 (sha256_hex h (a @ b)) # merkle_level h rest"

text \<open>The outer \<open>while len(hashes) > 1\<close> loop.\<close>

function merkle_loop :: "host \<Rightarrow> string list \<Rightarrow> string list" where
  "merkle_loop h hashes =
     (if length hashes > 1 then merkle_loop h (merkle_level h hashes) else hashes)"
  by pat_completeness auto
termination
proof (relation "measure (\<lambda>(h, hashes). length hashes)")
  show "wf (measure (\<lambda>(h :: host, hashes :: string list). length hashes))"
    by simp
next
  fix h :: host and hashes :: "string list"
  assume long: "1 < length hashes"
  have "length (merkle_level h xs) = (length xs + 1) div 2" for xs
    by (induction h xs rule: merkle_level.induct) simp_all
  then show "((h, merkle_level h hashes), (h, hashes))
               \<in> measure (\<lambda>(h, hashes). length hashes)"
    using long by simp
qed

declare merkle_loop.simps [simp del]

definition sixteen_zeros :: string where
  "sixteen_zeros = replicate 16 (CHR ''0'')"

definition update_merkle_root :: "host \<Rightarrow> orbit \<Rightarrow> orbit" where
  "update_merkle_root h ob =
     (if transactions ob = [] then ob\<lparr>merkle_root := sixteen_zeros\<rparr>
      else
        let hashes = merkle_loop h (map signature (transactions ob))
        in ob\<lparr>merkle_root := (if hashes \<noteq> [] then hd hashes else sixteen_zeros)\<rparr>)"

definition add_transaction :: "host \<Rightarrow> transaction \<Rightarrow> orbit \<Rightarrow> bool \<times> orbit" where
  "add_transaction h tx ob =
     (if is_sealed ob then (False, ob)
      else if int (length (transactions ob)) \<ge> max_transactions ob then (False, ob)
      else (True, update_merkle_root h (ob\<lparr>transactions := transactions ob @ [tx]\<rparr>)))"

definition seal_orbit :: "host \<Rightarrow> string \<Rightarrow> orbit \<Rightarrow> orbit" where
  "seal_orbit h prev ob =
     (let ob1 = ob\<lparr>previous_hash := prev, is_sealed := True\<rparr>;
          content = \<lparr>c_orbit_number = orbit_number ob1,
                     c_transactions = length (transactions ob1),
                     c_merkle_root = merkle_root ob1,
                     c_previous_hash = previous_hash ob1,
                     c_timestamp = timestamp ob1\<rparr>
      in ob1\<lparr>orbital_hash := take 16 (sha256_hex h (json_dumps h content))\<rparr>)"

definition is_full :: "orbit \<Rightarrow> bool" where
  "is_full ob \<longleftrightarrow> int (length (transactions ob)) \<ge> max_transactions ob"

subsection \<open>OrbitChainNetwork\<close>

record network_stats =
  total_transactions :: int
  total_orbits :: int
  network_hash_rate :: int
  uptime :: datetime

record network =
  net_name :: string
  orbits :: "orbit list"
  validators :: "validator list"
  pending_transactions :: "transaction list"
  current_orbit_index :: nat
  consensus_threshold :: rat
  stats :: network_stats

text \<open>
  \<open>current_orbit_index\<close> starts at 0 and is only ever incremented, so it is a \<open>nat\<close>.
  \<open>consensus_threshold\<close> and the approval rate are Python floats; they are modelled as
  rationals. The float quotient \<open>approvals / n\<close> is the double nearest to the rational
  quotient and \<open>0.67\<close> is the double nearest to 67/100, so the float comparison agrees with
  the rational one unless the quotient lies within rounding distance of the threshold,
  which needs a pool of more than \<open>10^13\<close> validators.
\<close>

definition create_genesis_orbit ::
  "host \<Rightarrow> datetime \<Rightarrow> string \<Rightarrow> datetime \<Rightarrow> network \<Rightarrow> network" where
  "create_genesis_orbit h t_orbit nonce t_tx s =
     (let genesis = Orbit_init 0 1 t_orbit;
          genesis_tx = Transaction_init h nonce t_tx ''SYSTEM'' ''NETWORK''
                         ''Genesis orbit created'' ''genesis'';
          genesis1 = snd (add_transaction h genesis_tx genesis);
          genesis2 = seal_orbit h [] genesis1
      in s\<lparr>orbits := orbits s @ [genesis2],
           stats := (stats s)\<lparr>total_orbits := 1, total_transactions := 1\<rparr>\<rparr>)"

definition OrbitChainNetwork_init ::
  "host \<Rightarrow> string \<Rightarrow> datetime \<Rightarrow> datetime \<Rightarrow> string \<Rightarrow> datetime \<Rightarrow> network" where
  "OrbitChainNetwork_init h nm t_up t_orbit nonce t_tx =
     create_genesis_orbit h t_orbit nonce t_tx
       \<lparr>net_name = nm, orbits = [], validators = [], pending_transactions = [],
        current_orbit_index = 0, consensus_threshold = 67 / 100,
        stats = \<lparr>total_transactions = 0, total_orbits = 0, network_hash_rate = 0,
                 uptime = t_up\<rparr>\<rparr>"

definition add_validator :: "validator \<Rightarrow> network \<Rightarrow> network" where
  "add_validator v s =
     (let v1 = v\<lparr>sector_position :=
                  int (length (validators s)) * (360 div max 1 (int (length (validators s)) + 1))\<rparr>
      in s\<lparr>validators := validators s @ [v1]\<rparr>)"

text \<open>
  \<open>add_validator\<close> above works on the validators as values: it is what
  \<open>self.validators\<close> reads after the call when the object registered was not in the
  registry before. The source assigns \<open>sector_position\<close> on the object it is given and
  appends the reference to that same object, so the fields of an object that is already
  registered change in every entry that refers to it. \<open>add_validator_ref\<close> is the same
  method with the objects explicit: \<open>objects\<close> gives the fields of the \<open>Validator\<close>
  object at each reference, \<open>registry\<close> is \<open>self.validators\<close> as the list of references it
  is, and \<open>pool_validators\<close> is what iterating over \<open>self.validators\<close> reads.
\<close>

type_synonym ref = nat

record validator_pool =
  objects :: "ref \<Rightarrow> validator"
  registry :: "ref list"

definition add_validator_ref :: "ref \<Rightarrow> validator_pool \<Rightarrow> validator_pool" where
  "add_validator_ref r p =
     (let pos = int (length (registry p)) * (360 div max 1 (int (length (registry p)) + 1));
          p1 = p\<lparr>objects := (objects p)(r := (objects p r)\<lparr>sector_position := pos\<rparr>)\<rparr>
      in p1\<lparr>registry := registry p1 @ [r]\<rparr>)"

definition pool_validators :: "validator_pool \<Rightarrow> validator list" where
  "pool_validators p = map (objects p) (registry p)"

definition submit_transaction :: "transaction \<Rightarrow> network \<Rightarrow> network" where
  "submit_transaction tx s = s\<lparr>pending_transactions := pending_transactions s @ [tx]\<rparr>"

text \<open>
  The \<open>for validator in self.validators\<close> loop of \<open>validate_transaction_consensus\<close>:
  an inactive validator is skipped without being asked (\<open>and\<close> short-circuits); the
  result is the number of approvals and the validators with their counters.
\<close>

fun count_approvals :: "transaction \<Rightarrow> validator list \<Rightarrow> nat \<Rightarrow> nat \<times> validator list" where
  "count_approvals tx [] approvals = (approvals, [])"
| "count_approvals tx (v # vs) approvals =
     (if is_active v then
        (case validate_transaction tx v of
           (ok, v1) \<Rightarrow>
             (case count_approvals tx vs (if ok then approvals + 1 else approvals) of
                (a, vs1) \<Rightarrow> (a, v1 # vs1)))
      else
        (case count_approvals tx vs approvals of (a, vs1) \<Rightarrow> (a, v # vs1)))"

definition validate_transaction_consensus ::
  "transaction \<Rightarrow> network \<Rightarrow> (exn + bool) \<times> network" where
  "validate_transaction_consensus tx s =
     (if validators s = [] then (Inr True, s)
      else
        (case count_approvals tx (validators s) 0 of
           (approvals, vs1) \<Rightarrow>
             let s1 = s\<lparr>validators := vs1\<rparr>;
                 n_active = length (filter is_active (validators s1))
             in if n_active = 0 then (Inl ZeroDivisionError, s1)
                else (Inr (rat_of_nat approvals / rat_of_nat n_active \<ge> consensus_threshold s1),
                      s1)))"

definition create_new_orbit :: "datetime \<Rightarrow> network \<Rightarrow> network" where
  "create_new_orbit now s =
     (let s1 = s\<lparr>current_orbit_index := current_orbit_index s + 1\<rparr>;
          new_orbit = Orbit_init (int (current_orbit_index s1)) 8 now
      in s1\<lparr>orbits := orbits s1 @ [new_orbit],
            stats := (stats s1)\<lparr>total_orbits := total_orbits (stats s1) + 1\<rparr>\<rparr>)"

definition seal_current_orbit :: "host \<Rightarrow> network \<Rightarrow> exn option \<times> network" where
  "seal_current_orbit h s =
     (let i = current_orbit_index s in
      if i \<ge> length (orbits s) then (Some IndexError, s)
      else
        let current_orbit = orbits s ! i;
            prev = (if i > 0 then orbital_hash (orbits s ! (i - 1)) else [])
        in (None, s\<lparr>orbits := (orbits s)[i := seal_orbit h prev current_orbit]\<rparr>))"

text \<open>
  The admission loop of \<open>process_pending_transactions\<close> over the copy
  \<open>self.pending_transactions[:]\<close>. \<open>current_orbit\<close> is the object at
  \<open>self.orbits[self.current_orbit_index]\<close>, so adding to it updates that slot of the
  list. The loop returns the exception, if one was raised, the list \<open>processed\<close> and the
  state.
\<close>

fun admit_loop ::
  "host \<Rightarrow> transaction list \<Rightarrow> transaction list \<Rightarrow> network
     \<Rightarrow> exn option \<times> transaction list \<times> network" where
  "admit_loop h [] processed s = (None, processed, s)"
| "admit_loop h (tx # rest) processed s =
     (case validate_transaction_consensus tx s of
        (Inl e, s1) \<Rightarrow> (Some e, processed, s1)
      | (Inr False, s1) \<Rightarrow> admit_loop h rest processed s1
      | (Inr True, s1) \<Rightarrow>
          (case add_transaction h tx (orbits s1 ! current_orbit_index s1) of
             (False, _) \<Rightarrow> admit_loop h rest processed s1
           | (True, ob1) \<Rightarrow>
               let s2 = s1\<lparr>orbits := (orbits s1)[current_orbit_index s1 := ob1],
                           stats := (stats s1)\<lparr>total_transactions :=
                                       total_transactions (stats s1) + 1\<rparr>\<rparr>;
                   processed1 = processed @ [tx]
               in if is_full ob1 then
                    (case seal_current_orbit h s2 of (e, s3) \<Rightarrow> (e, processed1, s3))
                  else admit_loop h rest processed1 s2))"

text \<open>
  \<open>for tx in processed: self.pending_transactions.remove(tx)\<close>; \<open>list.remove\<close> deletes the
  first equal element and raises \<open>ValueError\<close> when there is none. A \<open>Transaction\<close> object
  is identified with its field values.
\<close>

fun remove_processed :: "transaction list \<Rightarrow> network \<Rightarrow> exn option \<times> network" where
  "remove_processed [] s = (None, s)"
| "remove_processed (tx # rest) s =
     (if tx \<in> set (pending_transactions s) then
        remove_processed rest (s\<lparr>pending_transactions := remove1 tx (pending_transactions s)\<rparr>)
      else (Some ValueError, s))"

definition process_pending_transactions ::
  "host \<Rightarrow> datetime \<Rightarrow> network \<Rightarrow> exn option \<times> network" where
  "process_pending_transactions h now s =
     (if pending_transactions s = [] then (None, s)
      else if current_orbit_index s \<ge> length (orbits s) then (Some IndexError, s)
      else
        let current_orbit = orbits s ! current_orbit_index s;
            s1 = (if is_full current_orbit \<or> is_sealed current_orbit
                  then create_new_orbit now s else s)
        in if current_orbit_index s1 \<ge> length (orbits s1) then (Some IndexError, s1)
           else
             (case admit_loop h (pending_transactions s1) [] s1 of
                (Some e, processed, s2) \<Rightarrow> (Some e, s2)
              | (None, processed, s2) \<Rightarrow> remove_processed processed s2))"

text \<open>
  \<open>show_orbit_detail\<close> prints; the model returns what it shows: \<open>NotExists\<close> for the
  message that the orbit does not exist, \<open>Detail ob\<close> for the orbit whose fields are
  printed.
\<close>

datatype detail = NotExists | Detail orbit

definition show_orbit_detail :: "network \<Rightarrow> int \<Rightarrow> exn + detail" where
  "show_orbit_detail s n =
     (if n \<ge> int (length (orbits s)) then Inr NotExists
      else (case py_index (orbits s) n of Inl e \<Rightarrow> Inl e | Inr ob \<Rightarrow> Inr (Detail ob)))"

subsection \<open>The driver loop and the reachable ledger states\<close>

text \<open>
  The loop of \<open>create_demo_network\<close>: each transaction is submitted and the queue is
  processed at once. An exception ends the run, as it would in Python.
\<close>

fun submit_and_process ::
  "host \<Rightarrow> (datetime \<times> transaction) list \<Rightarrow> network \<Rightarrow> exn option \<times> network" where
  "submit_and_process h [] s = (None, s)"
| "submit_and_process h ((now, tx) # rest) s =
     (case process_pending_transactions h now (submit_transaction tx s) of
        (Some e, s1) \<Rightarrow> (Some e, s1)
      | (None, s1) \<Rightarrow> submit_and_process h rest s1)"

text \<open>
  The ledger states that the public operations produce: construction,
  \<open>add_validator\<close>, \<open>submit_transaction\<close>, \<open>process_pending_transactions\<close> and
  \<open>seal_current_orbit\<close>, with any arguments. The state an operation leaves behind when
  it raises is reachable too. The validators are held as values: each call of
  \<open>add_validator\<close> registers an object that is not in the registry yet (for such a call
  the value-level and the reference-level method agree, lemma \<open>add_validator_refines\<close>).
\<close>

inductive reachable :: "host \<Rightarrow> network \<Rightarrow> bool" for h :: host where
  construct: "reachable h (OrbitChainNetwork_init h nm t_up t_orbit nonce t_tx)"
| register: "reachable h s \<Longrightarrow> reachable h (add_validator v s)"
| submit: "reachable h s \<Longrightarrow> reachable h (submit_transaction tx s)"
| process: "reachable h s \<Longrightarrow> reachable h (snd (process_pending_transactions h now s))"
| seal: "reachable h s \<Longrightarrow> reachable h (snd (seal_current_orbit h s))"

text \<open>
  The invariant of the orbit sequence \<open>obs\<close> with current index \<open>i\<close>: the current orbit is
  the last one, every earlier orbit is sealed, the current orbit is sealed if it is full,
  the first orbit has no predecessor hash and every sealed later orbit carries the
  orbital hash of its predecessor.
\<close>

definition chain_ok :: "orbit list \<Rightarrow> nat \<Rightarrow> bool" where
  "chain_ok obs i \<longleftrightarrow>
     i + 1 = length obs \<and>
     (\<forall>j < i. is_sealed (obs ! j)) \<and>
     (is_full (obs ! i) \<longrightarrow> is_sealed (obs ! i)) \<and>
     previous_hash (obs ! 0) = [] \<and>
     (\<forall>j. 0 < j \<and> j < length obs \<and> is_sealed (obs ! j)
          \<longrightarrow> previous_hash (obs ! j) = orbital_hash (obs ! (j - 1)))"

definition ledger_inv :: "network \<Rightarrow> bool" where
  "ledger_inv s \<longleftrightarrow> chain_ok (orbits s) (current_orbit_index s)"

text \<open>
  A concrete environment for evaluating the model on examples: the digest is the
  identity and the serialisation lists the previous hash and the merkle root.
\<close>

definition demo_host :: host where
  "demo_host = \<lparr>sha256_hex = (\<lambda>s. s),
                json_dumps = (\<lambda>c. c_previous_hash c @ ''|'' @ c_merkle_root c),
                str_datetime = (\<lambda>t. ''T'')\<rparr>"

definition demo_tx :: "string \<Rightarrow> transaction" where
  "demo_tx nonce = Transaction_init demo_host nonce 0 ''Alice'' ''Bob'' ''10 OrbitCoins'' ''payment''"

definition blank_pool :: validator_pool where
  "blank_pool = \<lparr>objects = (\<lambda>r. Validator_init ''Node'' 100), registry = []\<rparr>"

definition fresh_ledger :: network where
  "fresh_ledger = OrbitChainNetwork_init demo_host ''OrbitChain-Demo'' 0 0 ''n0'' 0"

text \<open>
  Vocabulary for the demo scenario. A transaction is well formed when it passes
  \<open>Validator.validate_transaction\<close>. A ledger is ready when its pool is non-empty and all
  active, its threshold is at most 1, its queue is empty and its current orbit is the
  last one; \<open>open_at s i txs\<close> says moreover that the current orbit is orbit \<open>i\<close>, open,
  of capacity 8 and holding \<open>txs\<close>. \<open>counted v\<close> is \<open>v\<close> after one accepted validation.
\<close>

definition well_formed :: "transaction \<Rightarrow> bool" where
  "well_formed tx \<longleftrightarrow> length (signature tx) \<ge> 10 \<and> sender tx \<noteq> [] \<and> receiver tx \<noteq> []"

definition ready :: "network \<Rightarrow> bool" where
  "ready s \<longleftrightarrow>
     validators s \<noteq> [] \<and> (\<forall>v \<in> set (validators s). is_active v) \<and>
     consensus_threshold s \<le> 1 \<and> pending_transactions s = [] \<and>
     current_orbit_index s + 1 = length (orbits s)"

definition open_at :: "network \<Rightarrow> nat \<Rightarrow> transaction list \<Rightarrow> bool" where
  "open_at s i txs \<longleftrightarrow>
     ready s \<and> current_orbit_index s = i \<and> transactions (orbits s ! i) = txs \<and>
     \<not> is_sealed (orbits s ! i) \<and> max_transactions (orbits s ! i) = 8"

definition counted :: "validator \<Rightarrow> validator" where
  "counted v = v\<lparr>validated_count := validated_count v + 1\<rparr>"

text \<open>
  The validators and the ten transactions of \<open>create_demo_network\<close>, with the payloads
  written in ASCII, each paired with the clock reading of its processing step.
\<close>

definition demo_validators :: "validator list" where
  "demo_validators =
     [Validator_init ''Alice-Node'' 1000, Validator_init ''Bob-Node'' 750,
      Validator_init ''Carol-Node'' 500, Validator_init ''Dave-Node'' 250]"

definition demo_transactions :: "(datetime \<times> transaction) list" where
  "demo_transactions =
     [(1, Transaction_init demo_host ''n1'' 1 ''Alice'' ''Bob'' ''10 OrbitCoins'' ''payment''),
      (2, Transaction_init demo_host ''n2'' 2 ''Bob'' ''Carol'' ''Koupit kavu'' ''purchase''),
      (3, Transaction_init demo_host ''n3'' 3 ''Carol'' ''Dave'' ''Dokument #123'' ''document''),
      (4, Transaction_init demo_host ''n4'' 4 ''Dave'' ''Alice'' ''Hlasovani #456'' ''vote''),
      (5, Transaction_init demo_host ''n5'' 5 ''Alice'' ''Carol'' ''Certifikat skoly'' ''certificate''),
      (6, Transaction_init demo_host ''n6'' 6 ''Bob'' ''Dave'' ''IoT data senzor'' ''iot''),
      (7, Transaction_init demo_host ''n7'' 7 ''Carol'' ''Alice'' ''Smart kontrakt'' ''contract''),
      (8, Transaction_init demo_host ''n8'' 8 ''Dave'' ''Bob'' ''Backup fotek'' ''storage''),
      (9, Transaction_init demo_host ''n9'' 9 ''Alice'' ''Dave'' ''5 OrbitCoins'' ''payment''),
      (10, Transaction_init demo_host ''n10'' 10 ''Bob'' ''Carol'' ''Overeni identity'' ''identity'')]"

section \<open>Properties\<close>

subsection \<open>Auxiliary lemmas: fields, the chain invariant, the merkle loop\<close>

lemma seal_orbit_fields [simp]:
  "is_sealed (seal_orbit h p ob)"
  "previous_hash (seal_orbit h p ob) = p"
  "transactions (seal_orbit h p ob) = transactions ob"
  "max_transactions (seal_orbit h p ob) = max_transactions ob"
  "merkle_root (seal_orbit h p ob) = merkle_root ob"
  by (simp_all add: seal_orbit_def Let_def)

lemma update_merkle_root_fields [simp]:
  "is_sealed (update_merkle_root h ob) = is_sealed ob"
  "previous_hash (update_merkle_root h ob) = previous_hash ob"
  "orbital_hash (update_merkle_root h ob) = orbital_hash ob"
  "transactions (update_merkle_root h ob) = transactions ob"
  "max_transactions (update_merkle_root h ob) = max_transactions ob"
  by (simp_all add: update_merkle_root_def Let_def)

lemma inv_init: "ledger_inv (OrbitChainNetwork_init h nm t_up t_orbit nonce t_tx)"
  by (simp add: ledger_inv_def chain_ok_def OrbitChainNetwork_init_def create_genesis_orbit_def
      Let_def add_transaction_def Orbit_init_def)

lemma inv_add_validator: "ledger_inv s \<Longrightarrow> ledger_inv (add_validator v s)"
  by (simp add: ledger_inv_def add_validator_def Let_def)

lemma inv_submit: "ledger_inv s \<Longrightarrow> ledger_inv (submit_transaction tx s)"
  by (simp add: ledger_inv_def submit_transaction_def)

lemma chain_ok_seal:
  assumes "chain_ok obs i"
  shows "chain_ok (obs[i := seal_orbit h (if i > 0 then orbital_hash (obs ! (i - 1)) else []) (obs ! i)]) i"
  using assms unfolding chain_ok_def
  by (auto simp: nth_list_update)

lemma inv_seal: "ledger_inv s \<Longrightarrow> ledger_inv (snd (seal_current_orbit h s))"
  using chain_ok_seal[of "orbits s" "current_orbit_index s" h]
  by (auto simp: ledger_inv_def seal_current_orbit_def Let_def chain_ok_def)

lemma chain_ok_new:
  assumes "chain_ok obs i" "is_sealed (obs ! i)"
  shows "chain_ok (obs @ [Orbit_init n 8 now]) (i + 1)"
proof -
  have len: "length obs = Suc i" using assms(1) by (simp add: chain_ok_def)
  have sealed: "is_sealed (obs ! j)" if "j < Suc i" for j
    using that assms by (cases "j = i") (auto simp: chain_ok_def)
  show ?thesis
    using assms sealed unfolding chain_ok_def
    by (auto simp: nth_append len Orbit_init_def is_full_def)
qed

lemma inv_create:
  "ledger_inv s \<Longrightarrow> is_full (orbits s ! current_orbit_index s) \<or> is_sealed (orbits s ! current_orbit_index s)
    \<Longrightarrow> ledger_inv (create_new_orbit now s)"
  using chain_ok_new[of "orbits s" "current_orbit_index s"]
  by (auto simp: ledger_inv_def create_new_orbit_def Let_def chain_ok_def)

lemma consensus_orbits [simp]:
  "orbits (snd (validate_transaction_consensus tx s)) = orbits s"
  "current_orbit_index (snd (validate_transaction_consensus tx s)) = current_orbit_index s"
  by (simp_all add: validate_transaction_consensus_def Let_def split: prod.splits)

lemma chain_ok_add:
  assumes "chain_ok obs i" "add_transaction h tx (obs ! i) = (True, ob1)" "\<not> is_full ob1"
  shows "chain_ok (obs[i := ob1]) i"
  using assms unfolding chain_ok_def add_transaction_def
  by (auto simp: nth_list_update split: if_splits)

lemma chain_ok_add_seal:
  assumes "chain_ok obs i" "add_transaction h tx (obs ! i) = (True, ob1)"
  shows "chain_ok (obs[i := seal_orbit h (if i > 0 then orbital_hash (obs ! (i - 1)) else []) ob1]) i"
  using assms unfolding chain_ok_def add_transaction_def
  by (auto simp: nth_list_update split: if_splits)

lemma inv_admit_loop:
  "ledger_inv s \<Longrightarrow> ledger_inv (snd (snd (admit_loop h txs processed s)))"
proof (induction txs arbitrary: processed s)
  case Nil
  then show ?case by simp
next
  case (Cons tx rest)
  obtain r s1 where c: "validate_transaction_consensus tx s = (r, s1)" by force
  have o1: "orbits s1 = orbits s" "current_orbit_index s1 = current_orbit_index s"
    using consensus_orbits[of tx s] c by simp_all
  then have i1: "ledger_inv s1" using Cons.prems by (simp add: ledger_inv_def)
  show ?case
  proof (cases r)
    case (Inl e)
    then show ?thesis using c i1 by simp
  next
    case (Inr ok)
    show ?thesis
    proof (cases ok)
      case False
      then show ?thesis using c Inr i1 Cons.IH by simp
    next
      case True
      obtain b ob1 where a: "add_transaction h tx (orbits s1 ! current_orbit_index s1) = (b, ob1)"
        by force
      show ?thesis
      proof (cases b)
        case False
        then show ?thesis using c Inr True a i1 Cons.IH by simp
      next
        case bT: True
        let ?s2 = "s1\<lparr>orbits := (orbits s1)[current_orbit_index s1 := ob1],
                       stats := (stats s1)\<lparr>total_transactions := total_transactions (stats s1) + 1\<rparr>\<rparr>"
        show ?thesis
        proof (cases "is_full ob1")
          case False
          have "ledger_inv ?s2"
            using chain_ok_add[of "orbits s1" "current_orbit_index s1" h tx ob1] a bT False i1
            by (simp add: ledger_inv_def)
          then show ?thesis using c Inr True a bT False Cons.IH by (simp add: Let_def)
        next
          case fT: True
          have "chain_ok (orbits s1) (current_orbit_index s1)" using i1 by (simp add: ledger_inv_def)
          then have "ledger_inv (snd (seal_current_orbit h ?s2))"
            using chain_ok_add_seal[of "orbits s1" "current_orbit_index s1" h tx ob1] a bT
            by (auto simp: ledger_inv_def seal_current_orbit_def Let_def chain_ok_def nth_list_update)
          moreover obtain e3 s3 where "seal_current_orbit h ?s2 = (e3, s3)" by force
          ultimately show ?thesis using c Inr True a bT fT by (simp add: Let_def)
        qed
      qed
    qed
  qed
qed

lemma remove_processed_orbits [simp]:
  "orbits (snd (remove_processed ps s)) = orbits s"
  "current_orbit_index (snd (remove_processed ps s)) = current_orbit_index s"
  by (induction ps arbitrary: s) simp_all

lemma inv_process: "ledger_inv s \<Longrightarrow> ledger_inv (snd (process_pending_transactions h now s))"
proof -
  assume i: "ledger_inv s"
  let ?cur = "orbits s ! current_orbit_index s"
  let ?s1 = "if is_full ?cur \<or> is_sealed ?cur then create_new_orbit now s else s"
  have i1: "ledger_inv ?s1" using i inv_create by simp
  obtain e ps s2 where l: "admit_loop h (pending_transactions ?s1) [] ?s1 = (e, ps, s2)"
    by (metis prod_cases3)
  have i2: "ledger_inv s2" using inv_admit_loop[OF i1, of h "pending_transactions ?s1" "[]"] l by simp
  have i3: "ledger_inv (snd (remove_processed ps s2))" using i2 by (simp add: ledger_inv_def)
  show ?thesis
    using i i1 i2 i3 l
    by (auto simp: process_pending_transactions_def Let_def split: option.splits)
qed

lemma reachable_inv: "reachable h s \<Longrightarrow> ledger_inv s"
  by (induction rule: reachable.induct)
     (simp_all add: inv_init inv_add_validator inv_submit inv_process inv_seal)

lemma count_approvals_inactive:
  "\<forall>v \<in> set vs. \<not> is_active v \<Longrightarrow> count_approvals tx vs a = (a, vs)"
  by (induction vs arbitrary: a) simp_all

lemma fresh_ledger_fields:
  "validators fresh_ledger = []"
  "pending_transactions fresh_ledger = []"
  "current_orbit_index fresh_ledger = 0"
  "length (orbits fresh_ledger) = 1"
  "consensus_threshold fresh_ledger = 67 / 100"
  by (simp_all add: fresh_ledger_def OrbitChainNetwork_init_def create_genesis_orbit_def Let_def)

lemma merkle_level_nonempty: "xs \<noteq> [] \<Longrightarrow> merkle_level h xs \<noteq> []"
  by (induction h xs rule: merkle_level.induct) simp_all

lemma merkle_loop_single: "hashes \<noteq> [] \<Longrightarrow> length (merkle_loop h hashes) = 1"
proof (induction h hashes rule: merkle_loop.induct)
  case (1 h hashes)
  show ?case
  proof (cases "1 < length hashes")
    case True
    then show ?thesis
      using 1 merkle_level_nonempty[of hashes h] by (simp add: merkle_loop.simps[of h hashes])
  next
    case False
    then have "length hashes = 1" using 1(2) by (cases hashes) auto
    then show ?thesis using False by (simp add: merkle_loop.simps[of h hashes])
  qed
qed

lemma one_tx_run:
  "process_pending_transactions demo_host 5 (submit_transaction (demo_tx ''n1'') fresh_ledger)
   = (None, fresh_ledger\<lparr>orbits := orbits fresh_ledger @
         [(Orbit_init 1 8 5)\<lparr>transactions := [demo_tx ''n1''], merkle_root := ''AliceBob10 Orbit''\<rparr>],
       current_orbit_index := 1,
       stats := (stats fresh_ledger)\<lparr>total_orbits := 2, total_transactions := 2\<rparr>\<rparr>)"
  by (simp add: process_pending_transactions_def submit_transaction_def fresh_ledger_def
      OrbitChainNetwork_init_def create_genesis_orbit_def Let_def is_full_def
      create_new_orbit_def validate_transaction_consensus_def add_transaction_def
      update_merkle_root_def Orbit_init_def merkle_loop.simps demo_tx_def Transaction_init_def
      sign_def demo_host_def)

lemma submit_fields [simp]:
  "pending_transactions (submit_transaction tx s) = pending_transactions s @ [tx]"
  "orbits (submit_transaction tx s) = orbits s"
  "validators (submit_transaction tx s) = validators s"
  "current_orbit_index (submit_transaction tx s) = current_orbit_index s"
  "consensus_threshold (submit_transaction tx s) = consensus_threshold s"
  by (simp_all add: submit_transaction_def)

lemma create_fields [simp]:
  "pending_transactions (create_new_orbit now s) = pending_transactions s"
  "orbits (create_new_orbit now s) = orbits s @ [Orbit_init (int (current_orbit_index s + 1)) 8 now]"
  "validators (create_new_orbit now s) = validators s"
  "current_orbit_index (create_new_orbit now s) = current_orbit_index s + 1"
  "consensus_threshold (create_new_orbit now s) = consensus_threshold s"
  by (simp_all add: create_new_orbit_def Let_def)

lemma gate_raises:
  assumes "validators s \<noteq> []" and "\<forall>v \<in> set (validators s). \<not> is_active v"
  shows "validate_transaction_consensus tx s = (Inl ZeroDivisionError, s)"
proof -
  have "filter is_active (validators s) = []"
    using assms(2) by (simp add: filter_empty_conv)
  then show ?thesis
    using assms by (simp add: validate_transaction_consensus_def count_approvals_inactive)
qed

lemma add_validator_refines:
  assumes "r \<notin> set (registry p)" and "validators s = pool_validators p"
  shows "add_validator (objects p r) s
           = s\<lparr>validators := pool_validators (add_validator_ref r p)\<rparr>"
  using assms
  by (simp add: add_validator_def add_validator_ref_def pool_validators_def Let_def)

subsection \<open>The consensus gate\<close>

text \<open>
  Claim C1. The claim asks that a ledger whose registry is non-empty but holds no active
  validator rejects every transaction without a division fault, and that
  \<open>processPending\<close> on it completes normally. The code divides the approvals by the
  number of active validators with no guard: for every such ledger the gate raises
  \<open>ZeroDivisionError\<close> and leaves the state as it was, and
  \<open>process_pending_transactions\<close> on a non-empty queue ends with that exception, the
  queue untouched.
\<close>

theorem consensus_all_inactive_raises:
  assumes "validators s \<noteq> []" and "\<forall>v \<in> set (validators s). \<not> is_active v"
  shows "validate_transaction_consensus tx s = (Inl ZeroDivisionError, s) \<and>
         (pending_transactions s \<noteq> [] \<and> current_orbit_index s < length (orbits s)
            \<longrightarrow> fst (process_pending_transactions h now s) = Some ZeroDivisionError \<and>
                pending_transactions (snd (process_pending_transactions h now s))
                  = pending_transactions s)"
proof (intro conjI impI)
  show "validate_transaction_consensus tx s = (Inl ZeroDivisionError, s)"
    using assms by (rule gate_raises)
next
  assume a: "pending_transactions s \<noteq> [] \<and> current_orbit_index s < length (orbits s)"
  let ?cur = "orbits s ! current_orbit_index s"
  let ?s1 = "if is_full ?cur \<or> is_sealed ?cur then create_new_orbit now s else s"
  have ps: "pending_transactions ?s1 = pending_transactions s" by simp
  obtain t rest where "pending_transactions s = t # rest"
    using a by (cases "pending_transactions s") auto
  then have p: "pending_transactions ?s1 = t # rest"
    using ps by simp
  have v: "validators ?s1 \<noteq> []" "\<forall>v \<in> set (validators ?s1). \<not> is_active v"
    using assms by auto
  have l: "admit_loop h (pending_transactions ?s1) [] ?s1 = (Some ZeroDivisionError, [], ?s1)"
    unfolding p using gate_raises[OF v, of t] by simp
  have i: "current_orbit_index ?s1 < length (orbits ?s1)" using a by simp
  have r: "process_pending_transactions h now s = (Some ZeroDivisionError, ?s1)"
    using a l i unfolding process_pending_transactions_def Let_def
    by (simp del: create_fields)
  show "fst (process_pending_transactions h now s) = Some ZeroDivisionError"
    and "pending_transactions (snd (process_pending_transactions h now s)) = pending_transactions s"
    by (simp_all add: r)
qed

theorem consensus_all_inactive_raises_witness:
  "validators (submit_transaction (demo_tx ''n1'')
     (add_validator ((Validator_init ''Alice-Node'' 1000)\<lparr>is_active := False\<rparr>) fresh_ledger))
     = [(Validator_init ''Alice-Node'' 1000)\<lparr>is_active := False\<rparr>] \<and>
   validate_transaction_consensus (demo_tx ''n1'')
     (submit_transaction (demo_tx ''n1'')
       (add_validator ((Validator_init ''Alice-Node'' 1000)\<lparr>is_active := False\<rparr>) fresh_ledger))
     = (Inl ZeroDivisionError,
        submit_transaction (demo_tx ''n1'')
          (add_validator ((Validator_init ''Alice-Node'' 1000)\<lparr>is_active := False\<rparr>) fresh_ledger)) \<and>
   fst (process_pending_transactions demo_host 5
     (submit_transaction (demo_tx ''n1'')
       (add_validator ((Validator_init ''Alice-Node'' 1000)\<lparr>is_active := False\<rparr>) fresh_ledger)))
     = Some ZeroDivisionError"
  using consensus_all_inactive_raises
    [of "submit_transaction (demo_tx ''n1'')
          (add_validator ((Validator_init ''Alice-Node'' 1000)\<lparr>is_active := False\<rparr>) fresh_ledger)"
        "demo_tx ''n1''" demo_host 5]
  by (simp add: add_validator_def Validator_init_def fresh_ledger_fields)

subsection \<open>Sealing an orbit\<close>

text \<open>
  Claim C2, as stated: sealing an already sealed orbit again leaves the sealed flag,
  \<open>previous_hash\<close> and \<open>orbital_hash\<close> as they were, for any argument. \<open>seal_orbit\<close> has no
  check of the flag: sealing a sealed orbit with another previous hash overwrites
  \<open>previous_hash\<close>, and the orbital hash is recomputed from it.
\<close>

theorem seal_orbit_overwrites_counterexample:
  "is_sealed (seal_orbit demo_host [] (Orbit_init 1 8 0)) \<and>
   previous_hash (seal_orbit demo_host ''ab'' (seal_orbit demo_host [] (Orbit_init 1 8 0)))
     \<noteq> previous_hash (seal_orbit demo_host [] (Orbit_init 1 8 0)) \<and>
   orbital_hash (seal_orbit demo_host ''ab'' (seal_orbit demo_host [] (Orbit_init 1 8 0)))
     \<noteq> orbital_hash (seal_orbit demo_host [] (Orbit_init 1 8 0))"
  by (simp add: seal_orbit_def Orbit_init_def demo_host_def Let_def)

text \<open>
  Claim C2, amended: sealing an already sealed orbit keeps the sealed flag and every
  other field, sets \<open>previous_hash\<close> to the argument and sets \<open>orbital_hash\<close> to the digest
  of the orbit's number, transaction count, merkle root, the new previous hash and the
  creation timestamp.
\<close>

theorem seal_orbit_resealed:
  assumes "is_sealed ob"
  shows "seal_orbit h p ob =
           ob\<lparr>previous_hash := p,
              orbital_hash := take 16 (sha256_hex h (json_dumps h
                 \<lparr>c_orbit_number = orbit_number ob,
                  c_transactions = length (transactions ob),
                  c_merkle_root = merkle_root ob,
                  c_previous_hash = p,
                  c_timestamp = timestamp ob\<rparr>))\<rparr>"
  using assms by (simp add: seal_orbit_def Let_def)

theorem seal_orbit_resealed_witness:
  "is_sealed (seal_orbit demo_host [] (Orbit_init 1 8 0)) \<and>
   seal_orbit demo_host ''ab'' (seal_orbit demo_host [] (Orbit_init 1 8 0)) =
     (seal_orbit demo_host [] (Orbit_init 1 8 0))
       \<lparr>previous_hash := ''ab'', orbital_hash := ''ab|''\<rparr>"
  using seal_orbit_resealed [of "seal_orbit demo_host [] (Orbit_init 1 8 0)" demo_host "''ab''"]
  by (simp add: Orbit_init_def demo_host_def)

subsection \<open>The merkle root of an empty orbit\<close>

text \<open>
  Claim C3. The claim asks that an orbit with no transactions, a freshly constructed one
  included, has the merkle root of sixteen zero characters. \<open>update_merkle_root\<close> gives
  that value for an empty list, but the constructor never calls it and stores the empty
  string: a fresh orbit is open, has no transactions and has a merkle root that is not
  sixteen zeros.
\<close>

theorem fresh_orbit_merkle_root:
  "transactions (Orbit_init n cap now) = [] \<and>
   \<not> is_sealed (Orbit_init n cap now) \<and>
   merkle_root (Orbit_init n cap now) = [] \<and>
   merkle_root (Orbit_init n cap now) \<noteq> sixteen_zeros \<and>
   merkle_root (update_merkle_root h (Orbit_init n cap now)) = sixteen_zeros"
  by (simp add: Orbit_init_def sixteen_zeros_def update_merkle_root_def)

subsection \<open>Constructing an orbit\<close>

text \<open>
  Claim C5, as stated: constructing an orbit with a non-positive capacity fails at
  construction time. \<open>Orbit.__init__\<close> checks nothing and has no \<open>raise\<close>: with capacity 0
  it returns an open orbit object.
\<close>

theorem orbit_init_nonpositive_counterexample:
  "Orbit_init 1 0 0 =
     \<lparr>orbit_number = 1, transactions = [], max_transactions = 0, timestamp = 0,
      is_sealed = False, validators_confirmed = [], orbital_hash = [],
      previous_hash = [], merkle_root = []\<rparr>"
  by (simp add: Orbit_init_def)

text \<open>
  Claim C5, amended: constructing an orbit with a non-positive capacity succeeds; the
  orbit is open, keeps that capacity, is full from the start, and every
  \<open>add_transaction\<close> on it returns false and changes nothing.
\<close>

theorem orbit_init_nonpositive:
  assumes "cap \<le> 0"
  shows "max_transactions (Orbit_init n cap now) = cap \<and>
         \<not> is_sealed (Orbit_init n cap now) \<and>
         is_full (Orbit_init n cap now) \<and>
         add_transaction h tx (Orbit_init n cap now) = (False, Orbit_init n cap now)"
  using assms by (simp add: Orbit_init_def is_full_def add_transaction_def)

theorem orbit_init_nonpositive_witness:
  "(0::int) \<le> 0 \<and>
   max_transactions (Orbit_init 1 0 0) = 0 \<and>
   \<not> is_sealed (Orbit_init 1 0 0) \<and>
   is_full (Orbit_init 1 0 0) \<and>
   add_transaction demo_host (demo_tx ''n1'') (Orbit_init 1 0 0) = (False, Orbit_init 1 0 0)"
  using orbit_init_nonpositive [of 0 1 0 demo_host "demo_tx ''n1''"]
  by simp

subsection \<open>Showing an orbit\<close>

text \<open>
  Claim C6. The claim asks that every out-of-range index, negative ones included, gives
  the not-found result and never a fault or the content of an orbit. The code checks
  only the upper bound: on a fresh ledger, index \<open>-1\<close> shows the genesis orbit and index
  \<open>-2\<close> raises \<open>IndexError\<close>.
\<close>

theorem show_orbit_detail_negative:
  "show_orbit_detail (OrbitChainNetwork_init h nm t_up t_orbit nonce t_tx) (- 1)
     = Inr (Detail (orbits (OrbitChainNetwork_init h nm t_up t_orbit nonce t_tx) ! 0)) \<and>
   show_orbit_detail (OrbitChainNetwork_init h nm t_up t_orbit nonce t_tx) (- 2)
     = Inl IndexError"
  by (simp add: show_orbit_detail_def py_index_def OrbitChainNetwork_init_def
      create_genesis_orbit_def Let_def)

subsection \<open>Adding a transaction to an orbit\<close>

text \<open>
  Claim C7, as stated: \<open>add\<close> fails when the orbit is sealed or its transaction count
  equals its capacity, and otherwise appends. The code compares with \<open>>=\<close>: an open orbit
  of capacity \<open>-1\<close> holds no transaction, so its count does not equal its capacity, and
  still \<open>add_transaction\<close> returns false and changes nothing.
\<close>

theorem add_transaction_counterexample:
  "\<not> is_sealed (Orbit_init 0 (- 1) 0) \<and>
   int (length (transactions (Orbit_init 0 (- 1) 0))) \<noteq> max_transactions (Orbit_init 0 (- 1) 0) \<and>
   add_transaction demo_host (demo_tx ''n1'') (Orbit_init 0 (- 1) 0) = (False, Orbit_init 0 (- 1) 0)"
  by (simp add: Orbit_init_def add_transaction_def)

text \<open>
  Claim C7, amended: \<open>add\<close> returns false and leaves the orbit unchanged whenever the
  orbit is sealed or its transaction count is at least its capacity; otherwise it
  appends the transaction, sets the merkle root to the single value that the merkle
  loop leaves for the new list of integrity tags, changes no other field and returns
  true.
\<close>

theorem add_transaction_cases:
  "(is_sealed ob \<or> max_transactions ob \<le> int (length (transactions ob))
      \<longrightarrow> add_transaction h tx ob = (False, ob)) \<and>
   (\<not> is_sealed ob \<and> int (length (transactions ob)) < max_transactions ob
      \<longrightarrow> add_transaction h tx ob =
            (True, ob\<lparr>transactions := transactions ob @ [tx],
                      merkle_root := hd (merkle_loop h (map signature (transactions ob @ [tx])))\<rparr>)
          \<and> length (merkle_loop h (map signature (transactions ob @ [tx]))) = 1)"
proof -
  have "length (merkle_loop h (map signature (transactions ob @ [tx]))) = 1"
    by (rule merkle_loop_single) simp
  then show ?thesis
    by (auto simp: add_transaction_def update_merkle_root_def Let_def)
qed

theorem add_transaction_cases_witness:
  "is_sealed (seal_orbit demo_host [] (Orbit_init 1 8 0)) \<and>
   add_transaction demo_host (demo_tx ''n1'') (seal_orbit demo_host [] (Orbit_init 1 8 0))
     = (False, seal_orbit demo_host [] (Orbit_init 1 8 0)) \<and>
   \<not> is_sealed (Orbit_init 1 8 0) \<and>
   int (length (transactions (Orbit_init 1 8 0))) < max_transactions (Orbit_init 1 8 0) \<and>
   add_transaction demo_host (demo_tx ''n1'') (Orbit_init 1 8 0)
     = (True, (Orbit_init 1 8 0)\<lparr>transactions := [demo_tx ''n1''],
                                 merkle_root := ''AliceBob10 Orbit''\<rparr>)"
  using add_transaction_cases [of "seal_orbit demo_host [] (Orbit_init 1 8 0)" demo_host "demo_tx ''n1''"]
    add_transaction_cases [of "Orbit_init 1 8 0" demo_host "demo_tx ''n1''"]
  by (simp add: Orbit_init_def seal_orbit_def Let_def demo_tx_def Transaction_init_def sign_def
      demo_host_def merkle_loop.simps)

subsection \<open>Registering a validator\<close>

text \<open>
  Claim C9, as stated: the new validator's position is the index before insertion times
  the quotient 360 / count after insertion, and positions of validators registered
  before are never recomputed. The code uses floor division \<open>//\<close>: the seventh validator
  gets \<open>6 * (360 // 7) = 306\<close>, which is not \<open>6 * (360 / 7)\<close>. And the code writes the
  position into the object it is given: registering an object that is registered
  already turns the position of its first entry from 0 into 180.
\<close>

theorem add_validator_counterexample:
  "sector_position (objects
      (add_validator_ref 6 (fold add_validator_ref [0, 1, 2, 3, 4, 5] blank_pool)) 6) = 306 \<and>
   rat_of_int 306 \<noteq> 6 * (360 / 7) \<and>
   map sector_position (pool_validators (add_validator_ref 0 blank_pool)) = [0] \<and>
   map sector_position (pool_validators (add_validator_ref 0 (add_validator_ref 0 blank_pool)))
     = [180, 180]"
  by (simp add: add_validator_ref_def pool_validators_def blank_pool_def Let_def)

text \<open>
  Claim C9, amended: \<open>add_validator\<close> appends the validator to the registry and sets its
  \<open>sector_position\<close> to the number of validators already registered times the integer
  (floor) quotient of 360 by that number plus one, leaving its other fields as they
  are; no other validator object is touched. So when the validator is not in the
  registry already, every entry registered before keeps its place and its position,
  the registry reads as before followed by the new validator, and the ledger changes in
  nothing but its registry.
\<close>

theorem add_validator_position:
  "registry (add_validator_ref r p) = registry p @ [r] \<and>
   objects (add_validator_ref r p) r =
     (objects p r)\<lparr>sector_position :=
        int (length (registry p)) * (360 div (int (length (registry p)) + 1))\<rparr> \<and>
   (\<forall>q. q \<noteq> r \<longrightarrow> objects (add_validator_ref r p) q = objects p q) \<and>
   (r \<notin> set (registry p) \<longrightarrow>
      pool_validators (add_validator_ref r p) =
        pool_validators p @
          [(objects p r)\<lparr>sector_position :=
              int (length (registry p)) * (360 div (int (length (registry p)) + 1))\<rparr>] \<and>
      take (length (registry p)) (pool_validators (add_validator_ref r p)) = pool_validators p \<and>
      (\<forall>s. validators s = pool_validators p \<longrightarrow>
           add_validator (objects p r) s
             = s\<lparr>validators := pool_validators (add_validator_ref r p)\<rparr>))"
proof -
  have m: "max 1 (int (length (registry p)) + 1) = int (length (registry p)) + 1"
    by simp
  show ?thesis
    using add_validator_refines[of r p]
    by (auto simp: add_validator_ref_def pool_validators_def Let_def m)
qed

theorem add_validator_position_witness:
  "registry (add_validator_ref 0 blank_pool) = [0] \<and>
   (1::nat) \<noteq> 0 \<and> 1 \<notin> set (registry (add_validator_ref 0 blank_pool)) \<and>
   objects (add_validator_ref 1 (add_validator_ref 0 blank_pool)) 0
     = objects (add_validator_ref 0 blank_pool) 0 \<and>
   map sector_position
     (pool_validators (add_validator_ref 1 (add_validator_ref 0 blank_pool))) = [0, 180] \<and>
   take 1 (pool_validators (add_validator_ref 1 (add_validator_ref 0 blank_pool)))
     = pool_validators (add_validator_ref 0 blank_pool) \<and>
   validators (add_validator (objects blank_pool 0) fresh_ledger)
     = pool_validators (add_validator_ref 0 blank_pool)"
proof -
  have a: "registry (add_validator_ref 0 blank_pool) = [0]"
    "1 \<notin> set (registry (add_validator_ref 0 blank_pool))"
    by (simp_all add: add_validator_ref_def blank_pool_def Let_def)
  have f: "validators fresh_ledger = pool_validators blank_pool"
    "0 \<notin> set (registry blank_pool)"
    by (simp_all add: fresh_ledger_fields pool_validators_def blank_pool_def)
  have s: "map sector_position
     (pool_validators (add_validator_ref 1 (add_validator_ref 0 blank_pool))) = [0, 180]"
    by (simp add: add_validator_ref_def pool_validators_def blank_pool_def Let_def
        Validator_init_def)
  show ?thesis
    using a f s add_validator_position [of 1 "add_validator_ref 0 blank_pool"]
      add_validator_position [of 0 blank_pool]
    by simp
qed

subsection \<open>The hash chain\<close>

text \<open>
  Claim C4: in every ledger state reachable by the public operations the first orbit
  has the empty previous hash, and every sealed orbit at an index \<open>i \<ge> 1\<close> has the
  orbital hash of orbit \<open>i - 1\<close> as its previous hash.
\<close>

theorem chain_linked:
  assumes "reachable h s"
  shows "orbits s \<noteq> [] \<and> previous_hash (orbits s ! 0) = [] \<and>
         (\<forall>i. 1 \<le> i \<and> i < length (orbits s) \<and> is_sealed (orbits s ! i)
              \<longrightarrow> previous_hash (orbits s ! i) = orbital_hash (orbits s ! (i - 1)))"
proof -
  have "chain_ok (orbits s) (current_orbit_index s)"
    using reachable_inv[OF assms] by (simp add: ledger_inv_def)
  then show ?thesis
    unfolding chain_ok_def by auto
qed

theorem chain_linked_witness:
  "reachable demo_host
     (snd (seal_current_orbit demo_host
        (snd (process_pending_transactions demo_host 5
           (submit_transaction (demo_tx ''n1'') fresh_ledger))))) \<and>
   (1::nat) \<le> 1 \<and>
   1 < length (orbits (snd (seal_current_orbit demo_host
        (snd (process_pending_transactions demo_host 5
           (submit_transaction (demo_tx ''n1'') fresh_ledger)))))) \<and>
   is_sealed (orbits (snd (seal_current_orbit demo_host
        (snd (process_pending_transactions demo_host 5
           (submit_transaction (demo_tx ''n1'') fresh_ledger))))) ! 1) \<and>
   previous_hash (orbits (snd (seal_current_orbit demo_host
        (snd (process_pending_transactions demo_host 5
           (submit_transaction (demo_tx ''n1'') fresh_ledger))))) ! 1)
     = orbital_hash (orbits (snd (seal_current_orbit demo_host
        (snd (process_pending_transactions demo_host 5
           (submit_transaction (demo_tx ''n1'') fresh_ledger))))) ! (1 - 1))"
proof -
  let ?w = "snd (seal_current_orbit demo_host
        (snd (process_pending_transactions demo_host 5
           (submit_transaction (demo_tx ''n1'') fresh_ledger))))"
  have r: "reachable demo_host ?w"
    unfolding fresh_ledger_def by (intro reachable.intros)
  have l: "1 < length (orbits ?w)" "is_sealed (orbits ?w ! 1)"
    by (simp_all add: one_tx_run seal_current_orbit_def Let_def fresh_ledger_fields nth_append)
  show ?thesis
    using r l chain_linked[OF r] by simp
qed

subsection \<open>Only the current orbit can be open\<close>

text \<open>
  Claim C10: in every ledger state reachable by the public operations the current orbit
  is the last one and every orbit before it is sealed, so at most the current orbit is
  open; and every full orbit is sealed.
\<close>

theorem earlier_orbits_sealed:
  assumes "reachable h s"
  shows "current_orbit_index s + 1 = length (orbits s) \<and>
         (\<forall>i < current_orbit_index s. is_sealed (orbits s ! i)) \<and>
         (\<forall>i < length (orbits s). is_full (orbits s ! i) \<longrightarrow> is_sealed (orbits s ! i))"
proof -
  have c: "chain_ok (orbits s) (current_orbit_index s)"
    using reachable_inv[OF assms] by (simp add: ledger_inv_def)
  have "is_sealed (orbits s ! i)" if "i < length (orbits s)" "is_full (orbits s ! i)" for i
  proof (cases "i = current_orbit_index s")
    case True
    then show ?thesis using c that by (simp add: chain_ok_def)
  next
    case False
    then have "i < current_orbit_index s" using c that by (simp add: chain_ok_def)
    then show ?thesis using c by (simp add: chain_ok_def)
  qed
  then show ?thesis using c by (simp add: chain_ok_def)
qed

theorem earlier_orbits_sealed_witness:
  "reachable demo_host
     (snd (process_pending_transactions demo_host 5
        (submit_transaction (demo_tx ''n1'') fresh_ledger))) \<and>
   (0::nat) < current_orbit_index (snd (process_pending_transactions demo_host 5
        (submit_transaction (demo_tx ''n1'') fresh_ledger))) \<and>
   is_full (orbits (snd (process_pending_transactions demo_host 5
        (submit_transaction (demo_tx ''n1'') fresh_ledger))) ! 0) \<and>
   is_sealed (orbits (snd (process_pending_transactions demo_host 5
        (submit_transaction (demo_tx ''n1'') fresh_ledger))) ! 0) \<and>
   \<not> is_sealed (orbits (snd (process_pending_transactions demo_host 5
        (submit_transaction (demo_tx ''n1'') fresh_ledger))) ! 1)"
proof -
  let ?w = "snd (process_pending_transactions demo_host 5
        (submit_transaction (demo_tx ''n1'') fresh_ledger))"
  have r: "reachable demo_host ?w"
    unfolding fresh_ledger_def by (intro reachable.intros)
  have l: "0 < current_orbit_index ?w" "\<not> is_sealed (orbits ?w ! 1)"
    by (simp_all add: one_tx_run fresh_ledger_fields nth_append Orbit_init_def)
  have g: "orbits ?w ! 0 = orbits fresh_ledger ! 0"
    by (simp add: one_tx_run nth_append fresh_ledger_fields)
  have f: "is_full (orbits ?w ! 0)"
    unfolding g
    by (simp add: fresh_ledger_def OrbitChainNetwork_init_def
        create_genesis_orbit_def Let_def is_full_def add_transaction_def Orbit_init_def)
  show ?thesis
    using r l f earlier_orbits_sealed[OF r] by simp
qed

subsection \<open>The demo scenario\<close>

lemma count_approvals_active:
  "well_formed tx \<Longrightarrow> \<forall>v \<in> set vs. is_active v
     \<Longrightarrow> count_approvals tx vs a = (a + length vs, map counted vs)"
  by (induction vs arbitrary: a)
     (auto simp: validate_transaction_def well_formed_def counted_def)

lemma consensus_approves:
  assumes "well_formed tx" and "validators s \<noteq> []" and "\<forall>v \<in> set (validators s). is_active v"
    and "consensus_threshold s \<le> 1"
  shows "validate_transaction_consensus tx s = (Inr True, s\<lparr>validators := map counted (validators s)\<rparr>)"
proof -
  have f: "filter is_active (map counted (validators s)) = map counted (validators s)"
    using assms(3) by (induction "validators s") (auto simp: counted_def filter_id_conv)
  have n: "length (validators s) \<noteq> 0" using assms(2) by simp
  show ?thesis
    using assms n
    by (simp add: validate_transaction_consensus_def count_approvals_active f Let_def)
qed

text \<open>One pass of the admission loop over a queue that holds a single transaction.\<close>

lemma admit_single:
  assumes "well_formed tx" and "validators s \<noteq> []" and "\<forall>v \<in> set (validators s). is_active v"
    and "consensus_threshold s \<le> 1"
    and "current_orbit_index s < length (orbits s)"
    and "\<not> is_sealed (orbits s ! current_orbit_index s)"
    and "int (length (transactions (orbits s ! current_orbit_index s)))
           < max_transactions (orbits s ! current_orbit_index s)"
  shows "\<exists>e s'. admit_loop h [tx] [] s = (e, [tx], s') \<and>
           e = None \<and>
           validators s' = map counted (validators s) \<and>
           pending_transactions s' = pending_transactions s \<and>
           consensus_threshold s' = consensus_threshold s \<and>
           current_orbit_index s' = current_orbit_index s \<and>
           orbits s' = (orbits s)[current_orbit_index s :=
              (let ob1 = update_merkle_root h ((orbits s ! current_orbit_index s)
                           \<lparr>transactions := transactions (orbits s ! current_orbit_index s) @ [tx]\<rparr>)
               in if is_full ob1
                  then seal_orbit h (if current_orbit_index s > 0
                                     then orbital_hash (orbits s ! (current_orbit_index s - 1))
                                     else []) ob1
                  else ob1)]"
proof -
  have c: "validate_transaction_consensus tx s
             = (Inr True, s\<lparr>validators := map counted (validators s)\<rparr>)"
    using assms(1-4) by (rule consensus_approves)
  show ?thesis
    using assms(5-7)
    by (simp add: c add_transaction_def Let_def seal_current_orbit_def nth_list_update)
qed


lemma step_new:
  assumes "ready s" and "is_sealed (orbits s ! current_orbit_index s)" and "well_formed tx"
  shows "\<exists>s'. process_pending_transactions h now (submit_transaction tx s) = (None, s') \<and>
           open_at s' (current_orbit_index s + 1) [tx] \<and>
           (\<forall>j \<le> current_orbit_index s. orbits s' ! j = orbits s ! j)"
proof -
  let ?s1 = "create_new_orbit now (submit_transaction tx s)"
  have len: "length (orbits s) = Suc (current_orbit_index s)"
    using assms(1) by (simp add: ready_def)
  have cur: "orbits ?s1 ! current_orbit_index ?s1 = Orbit_init (int (current_orbit_index s + 1)) 8 now"
    by (simp add: len nth_append)
  obtain e s2 where a: "admit_loop h [tx] [] ?s1 = (e, [tx], s2)" "e = None"
      "validators s2 = map counted (validators ?s1)"
      "pending_transactions s2 = pending_transactions ?s1"
      "consensus_threshold s2 = consensus_threshold ?s1"
      "current_orbit_index s2 = current_orbit_index ?s1"
      "orbits s2 = (orbits ?s1)[current_orbit_index ?s1 :=
              (let ob1 = update_merkle_root h ((orbits ?s1 ! current_orbit_index ?s1)
                           \<lparr>transactions := transactions (orbits ?s1 ! current_orbit_index ?s1) @ [tx]\<rparr>)
               in if is_full ob1
                  then seal_orbit h (if current_orbit_index ?s1 > 0
                                     then orbital_hash (orbits ?s1 ! (current_orbit_index ?s1 - 1))
                                     else []) ob1
                  else ob1)]"
    using admit_single[of tx ?s1 h] assms(1,3) unfolding cur
    by (auto simp: ready_def len Orbit_init_def)
  have p: "pending_transactions ?s1 = [tx]" using assms(1) by (simp add: ready_def)
  have proc: "process_pending_transactions h now (submit_transaction tx s)
                = (None, s2\<lparr>pending_transactions := []\<rparr>)"
    using assms(2) a(1,2,4) p len
    by (simp add: process_pending_transactions_def Let_def)
  have o2: "orbits s2 = orbits s @ [update_merkle_root h
               ((Orbit_init (int (current_orbit_index s + 1)) 8 now)\<lparr>transactions := [tx]\<rparr>)]"
    unfolding a(7) cur
    by (simp add: len[symmetric] Orbit_init_def is_full_def Let_def)
  have "open_at (s2\<lparr>pending_transactions := []\<rparr>) (current_orbit_index s + 1) [tx]"
    using assms(1) a(3,5,6) o2
    by (auto simp: open_at_def ready_def len counted_def Orbit_init_def nth_append)
  moreover have "\<forall>j \<le> current_orbit_index s.
      orbits (s2\<lparr>pending_transactions := []\<rparr>) ! j = orbits s ! j"
    by (simp add: o2 len nth_append)
  ultimately show ?thesis using proc by blast
qed

lemma step_open:
  assumes "open_at s i txs" and "length txs < 8" and "well_formed tx"
  shows "\<exists>s'. process_pending_transactions h now (submit_transaction tx s) = (None, s') \<and>
           ready s' \<and> current_orbit_index s' = i \<and>
           transactions (orbits s' ! i) = txs @ [tx] \<and>
           max_transactions (orbits s' ! i) = 8 \<and>
           (is_sealed (orbits s' ! i) \<longleftrightarrow> length txs = 7) \<and>
           (\<forall>j < i. orbits s' ! j = orbits s ! j)"
proof -
  let ?s1 = "submit_transaction tx s"
  have r: "ready s" and i: "current_orbit_index s = i"
    and t: "transactions (orbits s ! i) = txs" and o: "\<not> is_sealed (orbits s ! i)"
    and m: "max_transactions (orbits s ! i) = 8"
    using assms(1) by (simp_all add: open_at_def)
  have len: "length (orbits s) = Suc i"
    using r i by (simp add: ready_def)
  obtain e s2 where a: "admit_loop h [tx] [] ?s1 = (e, [tx], s2)" "e = None"
      "validators s2 = map counted (validators ?s1)"
      "pending_transactions s2 = pending_transactions ?s1"
      "consensus_threshold s2 = consensus_threshold ?s1"
      "current_orbit_index s2 = current_orbit_index ?s1"
      "orbits s2 = (orbits ?s1)[current_orbit_index ?s1 :=
              (let ob1 = update_merkle_root h ((orbits ?s1 ! current_orbit_index ?s1)
                           \<lparr>transactions := transactions (orbits ?s1 ! current_orbit_index ?s1) @ [tx]\<rparr>)
               in if is_full ob1
                  then seal_orbit h (if current_orbit_index ?s1 > 0
                                     then orbital_hash (orbits ?s1 ! (current_orbit_index ?s1 - 1))
                                     else []) ob1
                  else ob1)]"
    using admit_single[of tx ?s1 h] r i t o m assms(2,3)
    by (auto simp: ready_def len)
  have p: "pending_transactions ?s1 = [tx]" using r by (simp add: ready_def)
  have nf: "\<not> is_full (orbits s ! i)" using t m assms(2) by (simp add: is_full_def)
  have proc: "process_pending_transactions h now (submit_transaction tx s)
                = (None, s2\<lparr>pending_transactions := []\<rparr>)"
    using o nf a(1,2,4) p len i
    by (simp add: process_pending_transactions_def Let_def)
  let ?ob1 = "update_merkle_root h ((orbits s ! i)\<lparr>transactions := txs @ [tx]\<rparr>)"
  have f: "is_full ?ob1 \<longleftrightarrow> length txs = 7"
    using m assms(2) by (auto simp: is_full_def)
  have o2: "orbits s2 ! i = (if length txs = 7
              then seal_orbit h (if i > 0 then orbital_hash (orbits s ! (i - 1)) else []) ?ob1
              else ?ob1)"
    unfolding a(7) using len by (simp add: i t f Let_def)
  have l2: "length (orbits s2) = length (orbits s)"
    unfolding a(7) by simp
  have e2: "\<forall>j < i. orbits s2 ! j = orbits s ! j"
    unfolding a(7) by (simp add: i)
  have "ready (s2\<lparr>pending_transactions := []\<rparr>)"
    using r a(3,5,6) l2 by (auto simp: ready_def counted_def)
  then show ?thesis
    using proc a(6) i o2 e2 o m by (auto simp: Let_def)
qed

lemma fold_add_validator:
  "orbits (fold add_validator vs s) = orbits s"
  "pending_transactions (fold add_validator vs s) = pending_transactions s"
  "current_orbit_index (fold add_validator vs s) = current_orbit_index s"
  "consensus_threshold (fold add_validator vs s) = consensus_threshold s"
  "length (validators (fold add_validator vs s)) = length (validators s) + length vs"
  by (induction vs arbitrary: s) (simp_all add: add_validator_def Let_def)

lemma fold_add_validator_active:
  "\<forall>v \<in> set vs. is_active v \<Longrightarrow> \<forall>v \<in> set (validators s). is_active v
     \<Longrightarrow> \<forall>v \<in> set (validators (fold add_validator vs s)). is_active v"
proof (induction vs arbitrary: s)
  case Nil
  then show ?case by simp
next
  case (Cons a vs)
  have "\<forall>v \<in> set (validators (add_validator a s)). is_active v"
    using Cons.prems by (simp add: add_validator_def Let_def)
  then show ?case
    using Cons.IH[of "add_validator a s"] Cons.prems(1) by simp
qed

lemma init_fields:
  "validators (OrbitChainNetwork_init h nm t_up t_orbit nonce t_tx) = []"
  "pending_transactions (OrbitChainNetwork_init h nm t_up t_orbit nonce t_tx) = []"
  "current_orbit_index (OrbitChainNetwork_init h nm t_up t_orbit nonce t_tx) = 0"
  "length (orbits (OrbitChainNetwork_init h nm t_up t_orbit nonce t_tx)) = 1"
  "consensus_threshold (OrbitChainNetwork_init h nm t_up t_orbit nonce t_tx) = 67 / 100"
  "is_sealed (orbits (OrbitChainNetwork_init h nm t_up t_orbit nonce t_tx) ! 0)"
  by (simp_all add: OrbitChainNetwork_init_def create_genesis_orbit_def Let_def)

lemma list10:
  "length xs = 10 \<Longrightarrow> \<exists>x1 x2 x3 x4 x5 x6 x7 x8 x9 x10. xs = [x1, x2, x3, x4, x5, x6, x7, x8, x9, x10]"
  by (auto simp: numeral_eq_Suc length_Suc_conv)

text \<open>
  Claim C8: on a fresh ledger (default capacity 8, threshold 0.67) with four active
  validators, submitting and processing ten well-formed transactions one at a time
  raises nothing and leaves, beyond the genesis orbit, exactly two orbits: orbit 1
  sealed with the first eight transactions, orbit 2 open with the last two, and an
  empty pending queue.
\<close>

theorem demo_scenario:
  assumes "length vs = 4" and "\<forall>v \<in> set vs. is_active v"
    and "length steps = 10" and "\<forall>(now, tx) \<in> set steps. well_formed tx"
  shows "\<exists>s. submit_and_process h steps
                (fold add_validator vs (OrbitChainNetwork_init h nm t_up t_orbit nonce t_tx))
              = (None, s) \<and>
             length (orbits s) = 3 \<and> current_orbit_index s = 2 \<and>
             is_sealed (orbits s ! 1) \<and> transactions (orbits s ! 1) = map snd (take 8 steps) \<and>
             \<not> is_sealed (orbits s ! 2) \<and> transactions (orbits s ! 2) = map snd (drop 8 steps) \<and>
             pending_transactions s = []"
proof -
  let ?s0 = "fold add_validator vs (OrbitChainNetwork_init h nm t_up t_orbit nonce t_tx)"
  obtain n1 t1 n2 t2 n3 t3 n4 t4 n5 t5 n6 t6 n7 t7 n8 t8 n9 t9 n10 t10 where
    st: "steps = [(n1, t1), (n2, t2), (n3, t3), (n4, t4), (n5, t5), (n6, t6), (n7, t7),
                  (n8, t8), (n9, t9), (n10, t10)]"
    using list10[OF assms(3)] by (metis surj_pair)
  have w: "well_formed t1" "well_formed t2" "well_formed t3" "well_formed t4" "well_formed t5"
    "well_formed t6" "well_formed t7" "well_formed t8" "well_formed t9" "well_formed t10"
    using assms(4) by (simp_all add: st)
  have "length (validators ?s0) = 4"
    using assms(1) by (simp add: fold_add_validator init_fields)
  then have ne: "validators ?s0 \<noteq> []" by auto
  have "\<forall>v \<in> set (validators ?s0). is_active v"
    using assms(2) by (rule fold_add_validator_active) (simp add: init_fields)
  then have r0: "ready ?s0"
    using ne by (simp add: ready_def fold_add_validator init_fields)
  have i0: "current_orbit_index ?s0 = 0" and z0: "is_sealed (orbits ?s0 ! current_orbit_index ?s0)"
    by (simp_all add: fold_add_validator init_fields)
  obtain s1 where p1: "process_pending_transactions h n1 (submit_transaction t1 ?s0) = (None, s1)"
    and a1: "open_at s1 1 [t1]"
    using step_new[OF r0 z0 w(1), of h n1] by (auto simp: i0)
  obtain s2 where p2: "process_pending_transactions h n2 (submit_transaction t2 s1) = (None, s2)"
    and a2: "open_at s2 1 [t1, t2]"
    using step_open[OF a1 _ w(2), of h n2] by (auto simp: open_at_def)
  obtain s3 where p3: "process_pending_transactions h n3 (submit_transaction t3 s2) = (None, s3)"
    and a3: "open_at s3 1 [t1, t2, t3]"
    using step_open[OF a2 _ w(3), of h n3] by (auto simp: open_at_def)
  obtain s4 where p4: "process_pending_transactions h n4 (submit_transaction t4 s3) = (None, s4)"
    and a4: "open_at s4 1 [t1, t2, t3, t4]"
    using step_open[OF a3 _ w(4), of h n4] by (auto simp: open_at_def)
  obtain s5 where p5: "process_pending_transactions h n5 (submit_transaction t5 s4) = (None, s5)"
    and a5: "open_at s5 1 [t1, t2, t3, t4, t5]"
    using step_open[OF a4 _ w(5), of h n5] by (auto simp: open_at_def)
  obtain s6 where p6: "process_pending_transactions h n6 (submit_transaction t6 s5) = (None, s6)"
    and a6: "open_at s6 1 [t1, t2, t3, t4, t5, t6]"
    using step_open[OF a5 _ w(6), of h n6] by (auto simp: open_at_def)
  obtain s7 where p7: "process_pending_transactions h n7 (submit_transaction t7 s6) = (None, s7)"
    and a7: "open_at s7 1 [t1, t2, t3, t4, t5, t6, t7]"
    using step_open[OF a6 _ w(7), of h n7] by (auto simp: open_at_def)
  obtain s8 where p8: "process_pending_transactions h n8 (submit_transaction t8 s7) = (None, s8)"
    and r8: "ready s8" and i8: "current_orbit_index s8 = 1"
    and z8: "is_sealed (orbits s8 ! 1)"
    and t8: "transactions (orbits s8 ! 1) = [t1, t2, t3, t4, t5, t6, t7, t8]"
    using step_open[OF a7 _ w(8), of h n8] by auto
  have z8': "is_sealed (orbits s8 ! current_orbit_index s8)" using z8 i8 by simp
  have e2: "(1::nat) + 1 = 2" by simp
  obtain s9 where p9: "process_pending_transactions h n9 (submit_transaction t9 s8) = (None, s9)"
    and a9: "open_at s9 2 [t9]" and k9: "orbits s9 ! 1 = orbits s8 ! 1"
    using step_new[OF r8 z8' w(9), of h n9, unfolded i8 e2] by auto
  obtain s10 where p10: "process_pending_transactions h n10 (submit_transaction t10 s9) = (None, s10)"
    and r10: "ready s10" and i10: "current_orbit_index s10 = 2"
    and z10: "\<not> is_sealed (orbits s10 ! 2)"
    and t10: "transactions (orbits s10 ! 2) = [t9, t10]"
    and k10: "orbits s10 ! 1 = orbits s9 ! 1"
    using step_open[OF a9 _ w(10), of h n10] by auto
  have run: "submit_and_process h steps ?s0 = (None, s10)"
    unfolding st
    by (simp add: p1 p2 p3 p4 p5 p6 p7 p8 p9 p10)
  have "length (orbits s10) = 3" "pending_transactions s10 = []"
    using r10 i10 by (simp_all add: ready_def)
  then show ?thesis
    using run i10 z10 t10 k10 k9 z8 t8 by (simp add: st)
qed

theorem demo_scenario_witness:
  "length demo_validators = 4 \<and> list_all is_active demo_validators \<and>
   length demo_transactions = 10 \<and> list_all (\<lambda>(now, tx). well_formed tx) demo_transactions \<and>
   (\<exists>s. submit_and_process demo_host demo_transactions
           (fold add_validator demo_validators
              (OrbitChainNetwork_init demo_host ''OrbitChain-Demo'' 0 0 ''n0'' 0))
         = (None, s) \<and>
        length (orbits s) = 3 \<and> current_orbit_index s = 2 \<and>
        is_sealed (orbits s ! 1) \<and>
        transactions (orbits s ! 1) = map snd (take 8 demo_transactions) \<and>
        \<not> is_sealed (orbits s ! 2) \<and>
        transactions (orbits s ! 2) = map snd (drop 8 demo_transactions) \<and>
        pending_transactions s = [])"
proof -
  have v: "length demo_validators = 4" "\<forall>v \<in> set demo_validators. is_active v"
    by (simp_all add: demo_validators_def Validator_init_def)
  have t: "length demo_transactions = 10"
    by (simp add: demo_transactions_def)
  have w: "\<forall>(now, tx) \<in> set demo_transactions. well_formed tx"
    by (simp add: demo_transactions_def well_formed_def Transaction_init_def sign_def
        demo_host_def)
  show ?thesis
    using v t w
      demo_scenario [OF v t w, of demo_host "''OrbitChain-Demo''" 0 0 "''n0''" 0]
    unfolding list_all_iff by blast
qed

end
